theory Spec2Isabelle
  imports Main "HOL-Library.Sublist"
begin

section \<open>Values, records and the library boundary\<close>

text \<open>
  The spider of \<^verbatim>\<open>src/src/spider/spider.py\<close> (duplicated in \<^verbatim>\<open>src/main.py\<close>) works on
  dictionaries decoded from JSON. The fields it reads (\<^verbatim>\<open>id\<close>, \<^verbatim>\<open>update_time\<close>,
  \<^verbatim>\<open>publish_time\<close>) hold JSON scalars: null, an integer or a string. Python's \<^verbatim>\<open>True\<close> and
  \<^verbatim>\<open>False\<close> are the integers 1 and 0 for every operation used here (\<^verbatim>\<open>==\<close>, hashing,
  truthiness, \<^verbatim>\<open>int()\<close>), so they are \<open>PInt 1\<close> and \<open>PInt 0\<close>. Floats, lists and nested
  objects are not values of the model.
\<close>

datatype pyval = PNone | PInt int | PStr string

text \<open>Truthiness, as in \<^verbatim>\<open>if article_id\<close> and \<^verbatim>\<open>if not timestamp_str\<close>.\<close>

fun truthy :: "pyval \<Rightarrow> bool" where
  "truthy PNone = False"
| "truthy (PInt n) = (n \<noteq> 0)"
| "truthy (PStr s) = (s \<noteq> [])"

text \<open>A dictionary with string keys; \<open>dict_get d k v\<close> is \<^verbatim>\<open>d.get(k, v)\<close>.\<close>

type_synonym pydict = "string \<rightharpoonup> pyval"

definition dict_get :: "pydict \<Rightarrow> string \<Rightarrow> pyval \<Rightarrow> pyval" where
  "dict_get d k dflt = (case d k of None \<Rightarrow> dflt | Some v \<Rightarrow> v)"

type_synonym article = pydict

datatype exn = ValueError | TypeError | OverflowError | OSError

text \<open>
  An aware UTC \<^verbatim>\<open>datetime\<close> is the number of microseconds since the epoch; comparing two of
  them compares the numbers.
\<close>

type_synonym datetime = int

text \<open>
  The argument handed to \<^verbatim>\<open>datetime.fromtimestamp\<close>: the integer itself, or, for an integer
  above \<^verbatim>\<open>1e12\<close>, the float \<^verbatim>\<open>timestamp / 1000\<close>, which that integer determines.
\<close>

datatype timestamp = IntTs int | FloatTs int

text \<open>
  Two calls leave the repository: \<^verbatim>\<open>int(s)\<close> on a string (\<open>None\<close> stands for its
  \<^verbatim>\<open>ValueError\<close>) and \<^verbatim>\<open>datetime.fromtimestamp(t, tz=timezone.utc)\<close>, which returns an
  instant or raises; for \<open>FloatTs n\<close> the result includes the division \<^verbatim>\<open>n / 1000\<close>, which
  itself overflows on very long integers. What they answer is a parameter of the model, so
  that every theorem holds for whatever the interpreter does there.
\<close>

record pylib =
  int_str :: "string \<Rightarrow> int option"
  fromtimestamp :: "timestamp \<Rightarrow> exn + datetime"

text \<open>\<^verbatim>\<open>int(v)\<close> on a value of the model.\<close>

fun py_int :: "pylib \<Rightarrow> pyval \<Rightarrow> exn + int" where
  "py_int L PNone = Inl TypeError"
| "py_int L (PInt n) = Inr n"
| "py_int L (PStr s) = (case int_str L s of None \<Rightarrow> Inl ValueError | Some n \<Rightarrow> Inr n)"

text \<open>The handler \<^verbatim>\<open>except (ValueError, TypeError)\<close> of \<^verbatim>\<open>_parse_timestamp\<close>.\<close>

fun caught :: "exn \<Rightarrow> bool" where
  "caught ValueError = True"
| "caught TypeError = True"
| "caught OverflowError = False"
| "caught OSError = False"

section \<open>The dedup/time filter\<close>

text \<open>
  \<^verbatim>\<open>_parse_timestamp\<close> (spider.py 112-123). \<open>Inr None\<close> is the returned \<^verbatim>\<open>None\<close>, \<open>Inl e\<close> an
  exception that the handler does not catch and that reaches the caller.
\<close>

definition parse_timestamp :: "pylib \<Rightarrow> pyval \<Rightarrow> exn + datetime option" where
  "parse_timestamp L timestamp_str =
     (if \<not> truthy timestamp_str then Inr None
      else case py_int L timestamp_str of
             Inl e \<Rightarrow> (if caught e then Inr None else Inl e)
           | Inr ts \<Rightarrow>
               (case fromtimestamp L (if ts > 10 ^ 12 then FloatTs ts else IntTs ts) of
                  Inl e \<Rightarrow> (if caught e then Inr None else Inl e)
                | Inr t \<Rightarrow> Inr (Some t)))"

text \<open>
  \<^verbatim>\<open>_is_article_newer\<close> (spider.py 125-140). The publish time is parsed first, then the update
  time; a \<^verbatim>\<open>datetime\<close> is always truthy, so \<^verbatim>\<open>update_time if update_time else publish_time\<close>
  tests for \<^verbatim>\<open>None\<close>.
\<close>

definition is_article_newer :: "pylib \<Rightarrow> article \<Rightarrow> datetime option \<Rightarrow> exn + bool" where
  "is_article_newer L article since_time =
     (case since_time of
        None \<Rightarrow> Inr True
      | Some since \<Rightarrow>
          (case parse_timestamp L (dict_get article ''publish_time'' (PStr [])) of
             Inl e \<Rightarrow> Inl e
           | Inr publish_time \<Rightarrow>
               (case parse_timestamp L (dict_get article ''update_time'' (PStr [])) of
                  Inl e \<Rightarrow> Inl e
                | Inr update_time \<Rightarrow>
                    (case (case update_time of Some u \<Rightarrow> Some u | None \<Rightarrow> publish_time) of
                       None \<Rightarrow> Inr True
                     | Some article_time \<Rightarrow> Inr (article_time > since)))))"

text \<open>
  \<^verbatim>\<open>filter_new_articles\<close> (spider.py 193-221): the \<^verbatim>\<open>for\<close> loop, with the set
  \<^verbatim>\<open>self.existing_article_ids\<close> and the list \<^verbatim>\<open>new_articles\<close> passed along. The two counters
  only feed log lines and are left out.
\<close>

fun filter_loop ::
  "pylib \<Rightarrow> datetime option \<Rightarrow> pyval set \<Rightarrow> article list \<Rightarrow> article list
     \<Rightarrow> exn + (article list \<times> pyval set)" where
  "filter_loop L since_time ids new_articles [] = Inr (new_articles, ids)"
| "filter_loop L since_time ids new_articles (article # rest) =
     (let article_id = dict_get article ''id'' (PStr [])
      in if truthy article_id \<and> article_id \<in> ids
         then filter_loop L since_time ids new_articles rest
         else case is_article_newer L article since_time of
                Inl e \<Rightarrow> Inl e
              | Inr newer \<Rightarrow>
                  if \<not> newer then filter_loop L since_time ids new_articles rest
                  else filter_loop L since_time
                         (if truthy article_id then insert article_id ids else ids)
                         (new_articles @ [article]) rest)"

definition filter_new_articles ::
  "pylib \<Rightarrow> pyval set \<Rightarrow> article list \<Rightarrow> datetime option
     \<Rightarrow> exn + (article list \<times> pyval set)" where
  "filter_new_articles L ids articles since_time = filter_loop L since_time ids [] articles"

text \<open>
  The effective time of the specification: the update time if it parses, else the publish
  time, computed as the filter computes it (both fields are parsed, publish time first).
\<close>

definition effective_time :: "pylib \<Rightarrow> article \<Rightarrow> exn + datetime option" where
  "effective_time L article =
     (case parse_timestamp L (dict_get article ''publish_time'' (PStr [])) of
        Inl e \<Rightarrow> Inl e
      | Inr p \<Rightarrow>
          (case parse_timestamp L (dict_get article ''update_time'' (PStr [])) of
             Inl e \<Rightarrow> Inl e
           | Inr u \<Rightarrow> Inr (case u of Some t \<Rightarrow> Some t | None \<Rightarrow> p)))"

text \<open>A record is a duplicate when its identifier is non-empty and already seen.\<close>

definition is_duplicate :: "pyval set \<Rightarrow> article \<Rightarrow> bool" where
  "is_duplicate ids article =
     (truthy (dict_get article ''id'' (PStr [])) \<and> dict_get article ''id'' (PStr []) \<in> ids)"

text \<open>The seen set after a record has been accepted.\<close>

definition seen_with :: "pyval set \<Rightarrow> article \<Rightarrow> pyval set" where
  "seen_with ids article =
     (if truthy (dict_get article ''id'' (PStr []))
      then insert (dict_get article ''id'' (PStr [])) ids else ids)"

text \<open>
  A timestamp field without a time, in the words of the specification: missing (the default
  \<^verbatim>\<open>''\<close> of \<^verbatim>\<open>get\<close>, or JSON null), empty, or a string that \<^verbatim>\<open>int\<close> rejects.
\<close>

fun lacks_time :: "pylib \<Rightarrow> pyval \<Rightarrow> bool" where
  "lacks_time L PNone = True"
| "lacks_time L (PStr s) = (s = [] \<or> int_str L s = None)"
| "lacks_time L (PInt n) = False"

section \<open>Merge on save\<close>

text \<open>
  The dedup-and-concatenate step of \<^verbatim>\<open>merge_and_save_incremental\<close> (spider.py 504-509):
  \<^verbatim>\<open>existing_ids\<close> is the set comprehension over the records whose \<^verbatim>\<open>get('id')\<close> is truthy,
  \<^verbatim>\<open>unique_new_articles\<close> the list comprehension, \<^verbatim>\<open>combined_articles\<close> their concatenation.
\<close>

definition existing_ids_of :: "article list \<Rightarrow> pyval set" where
  "existing_ids_of existing_articles =
     set (map (\<lambda>article. dict_get article ''id'' (PStr []))
            (filter (\<lambda>article. truthy (dict_get article ''id'' PNone)) existing_articles))"

definition merge :: "article list \<Rightarrow> article list \<Rightarrow> article list" where
  "merge existing_articles all_new_articles =
     (let existing_ids = existing_ids_of existing_articles;
          unique_new_articles =
            filter (\<lambda>article. dict_get article ''id'' (PStr []) \<notin> existing_ids) all_new_articles
      in existing_articles @ unique_new_articles)"


text \<open>
  One library behaviour, used to run the definitions on concrete records: \<^verbatim>\<open>int\<close> accepts
  the non-empty strings of decimal digits, whole seconds convert within the years 1 to
  9999 and are a \<^verbatim>\<open>ValueError\<close> outside, and milliseconds convert exactly. The theorems
  do not depend on it.
\<close>

fun digit_val :: "char \<Rightarrow> int option" where
  "digit_val c =
     (let k = (of_char c :: nat) in if 48 \<le> k \<and> k \<le> 57 then Some (int k - 48) else None)"

fun digits_val :: "int \<Rightarrow> string \<Rightarrow> int option" where
  "digits_val acc [] = Some acc"
| "digits_val acc (c # cs) =
     (case digit_val c of None \<Rightarrow> None | Some d \<Rightarrow> digits_val (10 * acc + d) cs)"

definition decimal :: "string \<Rightarrow> int option" where
  "decimal s = (if s = [] then None else digits_val 0 s)"

definition utc_seconds :: "timestamp \<Rightarrow> exn + datetime" where
  "utc_seconds t =
     (case t of
        IntTs n \<Rightarrow> (if - 62135596800 \<le> n \<and> n \<le> 253402300799 then Inr (n * 1000000)
                    else Inl ValueError)
      | FloatTs n \<Rightarrow> (if n < 253402300800000 then Inr (n * 1000) else Inl OverflowError))"

definition sample_lib :: pylib where
  "sample_lib = \<lparr> int_str = decimal, fromtimestamp = utc_seconds \<rparr>"

section \<open>Pages, the spider and its log\<close>

text \<open>
  A decoded response of the endpoint. \<open>EmptyPayload\<close> is the empty dictionary, which is also
  what \<^verbatim>\<open>get_page_data\<close> returns when the request fails; \<open>NoDataKey\<close> is a non-empty
  dictionary without \<^verbatim>\<open>"data"\<close>; otherwise \<^verbatim>\<open>data["data"]\<close> is a dictionary in which
  \<^verbatim>\<open>resultList\<close> (a list of items) and \<^verbatim>\<open>totalCount\<close> (an integer) may each be absent.
\<close>

type_synonym item = pydict

record page_data =
  resultList :: "item list option"
  totalCount :: "int option"

datatype payload = EmptyPayload | NoDataKey | WithData page_data

record spider_config =
  section_id :: string
  topic_class_id :: string
  name :: string
  description :: string
  base_url :: string

text \<open>The log lines of the crawl, in the order of the source.\<close>

datatype event =
    Started bool string
  | FilterTime datetime
  | Fetching int
  | InvalidPage int
  | TotalInfo int int
  | AllPagesFetched int
  | PageFiltered int nat nat
  | NoNewArticles
  | PageFetched int nat
  | LastPage nat
  | Finished nat
  | NewCount int
  | ConfigMissing string
  | BatchStart string
  | BatchDone string nat
  | JsonSaved
  | JsonSaveFailed exn
  | HistorySaved
  | HistorySaveFailed exn

text \<open>The attributes of \<^verbatim>\<open>ArticleSpider\<close> that the crawl reads or writes, and the log.\<close>

record spider =
  all_articles :: "article list"
  existing_article_ids :: "pyval set"
  last_crawl_time :: "datetime option"
  configs :: "(string \<times> spider_config) list"
  current_config :: spider_config
  log :: "event list"

definition say :: "event \<Rightarrow> spider \<Rightarrow> spider" where
  "say e s = s\<lparr>log := log s @ [e]\<rparr>"

text \<open>
  The remote endpoint: what a request for a section, a topic class, a page index and a
  page size is answered with, after decoding, \<open>EmptyPayload\<close> when the request fails.
  \<^verbatim>\<open>get_page_data\<close> (spider.py 223-248) builds the request from the configuration.
\<close>

type_synonym server = "string \<Rightarrow> string \<Rightarrow> int \<Rightarrow> int \<Rightarrow> payload"

definition get_page_data :: "server \<Rightarrow> int \<Rightarrow> int \<Rightarrow> spider_config \<Rightarrow> payload" where
  "get_page_data srv page_index page_size config =
     srv (section_id config) (topic_class_id config) page_index page_size"

text \<open>
  \<^verbatim>\<open>parse_articles\<close> (spider.py 250-295). Each item gives one record; every field is read
  with its default. A comparison \<^verbatim>\<open>== 1\<close> gives the integer 1 or 0. The three fields whose
  values are lists or objects (\<^verbatim>\<open>tags\<close>, \<^verbatim>\<open>upload_info\<close>, \<^verbatim>\<open>additional_option\<close>) are not
  represented; nothing in the crawl reads them.
\<close>

definition flag :: "item \<Rightarrow> string \<Rightarrow> pyval" where
  "flag item k = PInt (if dict_get item k (PInt 0) = PInt 1 then 1 else 0)"

definition parse_item :: "item \<Rightarrow> article" where
  "parse_item item =
     [''id'' \<mapsto> dict_get item ''postId'' (PStr []),
      ''title'' \<mapsto> dict_get item ''title'' (PStr []),
      ''content'' \<mapsto> dict_get item ''content'' (PStr []),
      ''content_summary'' \<mapsto> dict_get item ''contentSummary'' (PStr []),
      ''author_id'' \<mapsto> dict_get item ''authorId'' (PStr []),
      ''author_name'' \<mapsto> dict_get item ''nickName'' (PStr []),
      ''author_icon'' \<mapsto> dict_get item ''authorIcon'' (PStr []),
      ''create_time'' \<mapsto> dict_get item ''createTime'' (PStr []),
      ''update_time'' \<mapsto> dict_get item ''lastEditTime'' (PStr []),
      ''publish_time'' \<mapsto> dict_get item ''dateline'' (PStr []),
      ''last_post_time'' \<mapsto> dict_get item ''lastPostTime'' (PStr []),
      ''views'' \<mapsto> dict_get item ''views'' (PInt 0),
      ''replies'' \<mapsto> dict_get item ''replies'' (PInt 0),
      ''comments'' \<mapsto> dict_get item ''comments'' (PInt 0),
      ''likes'' \<mapsto> dict_get item ''likes'' (PInt 0),
      ''favorites'' \<mapsto> dict_get item ''favTimes'' (PInt 0),
      ''shares'' \<mapsto> dict_get item ''shareTimes'' (PInt 0),
      ''topic_id'' \<mapsto> dict_get item ''topicId'' (PStr []),
      ''topic_class_id'' \<mapsto> dict_get item ''topicClassId'' (PStr []),
      ''topic_class_name'' \<mapsto> dict_get item ''topicClassName'' (PStr []),
      ''section_id'' \<mapsto> dict_get item ''sectionId'' (PStr []),
      ''section_name'' \<mapsto> dict_get item ''sectionName'' (PStr []),
      ''section_icon'' \<mapsto> dict_get item ''sectionIcon'' (PStr []),
      ''level_name'' \<mapsto> dict_get item ''levelName'' (PStr []),
      ''is_top'' \<mapsto> flag item ''top'',
      ''is_digest'' \<mapsto> flag item ''digest'',
      ''is_recommend'' \<mapsto> flag item ''recommend'',
      ''is_hot'' \<mapsto> flag item ''hot'',
      ''is_question'' \<mapsto> flag item ''isQuestion'',
      ''is_solved'' \<mapsto> flag item ''solved'',
      ''is_edited'' \<mapsto> flag item ''isEdited'',
      ''pictures'' \<mapsto> dict_get item ''pictures'' (PInt 0),
      ''attachments'' \<mapsto> dict_get item ''attachments'' (PInt 0),
      ''status'' \<mapsto> dict_get item ''status'' (PInt 0)]"

definition parse_articles :: "payload \<Rightarrow> article list" where
  "parse_articles data =
     (case data of
        WithData d \<Rightarrow> (case resultList d of Some items \<Rightarrow> map parse_item items | None \<Rightarrow> [])
      | _ \<Rightarrow> [])"

section \<open>The crawl loop\<close>

definition page_size :: int where
  "page_size = 12"

text \<open>
  \<^verbatim>\<open>math.ceil(total_count / page_size)\<close>: the ceiling of the quotient, for every integer
  whose quotient a float holds exactly enough (any count below \<open>2 ^ 52\<close>).
\<close>

definition total_pages_of :: "int \<Rightarrow> int" where
  "total_pages_of total_count = - ((- total_count) div page_size)"

text \<open>
  The validity test of the loop (spider.py 361):
  \<^verbatim>\<open>not data or "data" not in data or "resultList" not in data["data"]\<close>.
\<close>

fun invalid_payload :: "payload \<Rightarrow> bool" where
  "invalid_payload EmptyPayload = True"
| "invalid_payload NoDataKey = True"
| "invalid_payload (WithData d) = (resultList d = None)"

text \<open>\<^verbatim>\<open>data["data"].get("totalCount")\<close> when the key is there (spider.py 367).\<close>

fun declared_total :: "payload \<Rightarrow> int option" where
  "declared_total (WithData d) = totalCount d"
| "declared_total _ = None"

text \<open>
  The branch that accumulates a page (spider.py 381-393): in incremental mode, or with a
  filter time, the filtered records are appended and the seen set is the one the filter
  leaves; otherwise every record of the page is appended. An exception of the filter ends
  the call.
\<close>

definition accumulate ::
  "pylib \<Rightarrow> bool \<Rightarrow> datetime option \<Rightarrow> int \<Rightarrow> article list \<Rightarrow> int \<Rightarrow> spider
     \<Rightarrow> exn + (int \<times> spider)" where
  "accumulate L incremental filter_time page_index articles new_articles_count s =
     (if incremental \<or> filter_time \<noteq> None then
        (case filter_new_articles L (existing_article_ids s) articles filter_time of
           Inl e \<Rightarrow> Inl e
         | Inr (filtered_articles, ids) \<Rightarrow>
             Inr (new_articles_count + int (length filtered_articles),
                  s\<lparr>existing_article_ids := ids,
                    all_articles := all_articles s @ filtered_articles,
                    log := log s
                      @ [PageFiltered page_index (length articles) (length filtered_articles)]
                      @ (if incremental \<and> length filtered_articles = 0 \<and> page_index > 3
                         then [NoNewArticles] else [])\<rparr>))
      else
        Inr (new_articles_count + int (length articles),
             s\<lparr>all_articles := all_articles s @ articles,
               log := log s @ [PageFetched page_index (length articles)]\<rparr>))"

text \<open>The local variables and the spider when the loop is left.\<close>

record crawl =
  page_index :: int
  total_count :: int
  new_articles_count :: int
  self :: spider

text \<open>
  The \<^verbatim>\<open>while\<close> loop of \<^verbatim>\<open>get_all_articles\<close> (spider.py 354-404). \<open>fetch\<close> is
  \<^verbatim>\<open>get_page_data\<close> for the configuration of the call; the loop asks for each page index at
  most once. The pause between pages has no effect on the values.
\<close>

function crawl_loop ::
  "pylib \<Rightarrow> (int \<Rightarrow> payload) \<Rightarrow> int \<Rightarrow> bool \<Rightarrow> datetime option
     \<Rightarrow> int \<Rightarrow> int \<Rightarrow> int \<Rightarrow> spider \<Rightarrow> exn + crawl" where
  "crawl_loop L fetch max_pages incremental filter_time pidx tcount new_count s =
     (if pidx \<le> max_pages then
        (let s1 = say (Fetching pidx) s;
             data = fetch pidx
         in if invalid_payload data then
              crawl_loop L fetch max_pages incremental filter_time (pidx + 1) tcount new_count
                (say (InvalidPage pidx) s1)
            else
              (let tcount' = (case declared_total data of None \<Rightarrow> tcount | Some n \<Rightarrow> n);
                   s2 = (case declared_total data of None \<Rightarrow> s1
                         | Some n \<Rightarrow> say (TotalInfo n (total_pages_of n)) s1)
               in if (case declared_total data of None \<Rightarrow> False
                      | Some n \<Rightarrow> pidx > total_pages_of n)
                  then Inr \<lparr>page_index = pidx, total_count = tcount',
                            new_articles_count = new_count,
                            self = say (AllPagesFetched (total_pages_of tcount')) s2\<rparr>
                  else
                    (case accumulate L incremental filter_time pidx (parse_articles data)
                            new_count s2 of
                       Inl e \<Rightarrow> Inl e
                     | Inr (new_count', s3) \<Rightarrow>
                         if int (length (parse_articles data)) < page_size
                         then Inr \<lparr>page_index = pidx, total_count = tcount',
                                   new_articles_count = new_count',
                                   self = say (LastPage (length (parse_articles data))) s3\<rparr>
                         else crawl_loop L fetch max_pages incremental filter_time (pidx + 1)
                                tcount' new_count' s3)))
      else Inr \<lparr>page_index = pidx, total_count = tcount, new_articles_count = new_count,
                self = s\<rparr>)"
  by pat_completeness auto
termination
  by (relation "measure (\<lambda>(L, fetch, max_pages, incremental, filter_time, pidx, tcount,
        new_count, s). nat (max_pages + 1 - pidx))") auto

text \<open>
  \<^verbatim>\<open>get_all_articles\<close> (spider.py 328-409). A missing \<^verbatim>\<open>config\<close> is the current one; the
  filter time is \<^verbatim>\<open>since_time\<close> if given, else the last crawl time in incremental mode. The
  call returns \<^verbatim>\<open>self.all_articles\<close>, here with the spider it leaves behind.
\<close>

definition get_all_articles ::
  "pylib \<Rightarrow> server \<Rightarrow> int \<Rightarrow> spider_config option \<Rightarrow> bool \<Rightarrow> datetime option \<Rightarrow> spider
     \<Rightarrow> exn + (article list \<times> spider)" where
  "get_all_articles L srv max_pages config_opt incremental since_time s =
     (let config = (case config_opt of None \<Rightarrow> current_config s | Some c \<Rightarrow> c);
          filter_time = (case since_time of
                           Some t \<Rightarrow> Some t
                         | None \<Rightarrow> if incremental then last_crawl_time s else None);
          s0 = say (Started incremental (name config)) s;
          s1 = (case filter_time of None \<Rightarrow> s0 | Some t \<Rightarrow> say (FilterTime t) s0)
      in case crawl_loop L (\<lambda>page_index. get_page_data srv page_index page_size config)
                max_pages incremental filter_time 1 0 0 s1 of
           Inl e \<Rightarrow> Inl e
         | Inr c \<Rightarrow>
             (let s2 = say (Finished (length (all_articles (self c)))) (self c);
                  s3 = (if incremental then say (NewCount (new_articles_count c)) s2 else s2)
              in Inr (all_articles s3, s3)))"

text \<open>
  \<^verbatim>\<open>get_all_articles_batch\<close> (spider.py 411-447): the loop over the configuration names.
  \<^verbatim>\<open>self.configs\<close> keeps its insertion order; the result dictionary is a map.
\<close>

fun batch_loop ::
  "pylib \<Rightarrow> server \<Rightarrow> int \<Rightarrow> bool \<Rightarrow> datetime option \<Rightarrow> string list
     \<Rightarrow> (string \<rightharpoonup> article list) \<Rightarrow> spider
     \<Rightarrow> exn + ((string \<rightharpoonup> article list) \<times> spider)" where
  "batch_loop L srv max_pages incremental since_time [] results s = Inr (results, s)"
| "batch_loop L srv max_pages incremental since_time (config_name # rest) results s =
     (case map_of (configs s) config_name of
        None \<Rightarrow>
          batch_loop L srv max_pages incremental since_time rest results
            (say (ConfigMissing config_name) s)
      | Some config \<Rightarrow>
          (let s1 = say (BatchStart config_name) s;
               temp_articles = all_articles s1;
               s2 = s1\<lparr>all_articles := []\<rparr>
           in case get_all_articles L srv max_pages (Some config) incremental since_time s2 of
                Inl e \<Rightarrow> Inl e
              | Inr (articles, s3) \<Rightarrow>
                  batch_loop L srv max_pages incremental since_time rest
                    (results(config_name \<mapsto> articles))
                    (say (BatchDone config_name (length articles))
                       (s3\<lparr>all_articles := temp_articles @ articles\<rparr>))))"

definition get_all_articles_batch ::
  "pylib \<Rightarrow> server \<Rightarrow> string list option \<Rightarrow> int \<Rightarrow> bool \<Rightarrow> datetime option \<Rightarrow> spider
     \<Rightarrow> exn + ((string \<rightharpoonup> article list) \<times> spider)" where
  "get_all_articles_batch L srv config_names max_pages incremental since_time s =
     batch_loop L srv max_pages incremental since_time
       (case config_names of None \<Rightarrow> map fst (configs s) | Some ns \<Rightarrow> ns) Map.empty s"

section \<open>The history store\<close>

text \<open>
  The history file holds the last crawl time and the number of records. Writing a file
  either completes or fails with an exception, leaving the file as the failure leaves it
  (absent or unreadable is \<open>None\<close>); which of the two happens is decided outside the
  program.
\<close>

record history =
  h_last_crawl_time :: datetime
  h_total_articles :: nat

datatype 'd write_outcome = Written | WriteFails exn "'d option"

text \<open>
  \<^verbatim>\<open>save_json\<close> (file_utils.py 20-31): on any exception it logs an error and raises the
  exception again.
\<close>

definition save_json :: "'d write_outcome \<Rightarrow> 'd \<Rightarrow> (exn + unit) \<times> 'd option \<times> event list" where
  "save_json w data =
     (case w of
        Written \<Rightarrow> (Inr (), Some data, [JsonSaved])
      | WriteFails e left \<Rightarrow> (Inl e, left, [JsonSaveFailed e]))"

text \<open>
  \<^verbatim>\<open>save_crawl_history\<close> of spider.py (180-191): the handler \<^verbatim>\<open>except Exception\<close> catches
  whatever \<^verbatim>\<open>save_json\<close> raises and logs it. The result is the spider and the file.
\<close>

definition save_crawl_history ::
  "datetime \<Rightarrow> history write_outcome \<Rightarrow> spider \<Rightarrow> exn + (spider \<times> history option)" where
  "save_crawl_history now w s =
     (let history = \<lparr>h_last_crawl_time = now, h_total_articles = length (all_articles s)\<rparr>
      in case save_json w history of
           (Inr u, file, evs) \<Rightarrow> Inr (s\<lparr>log := log s @ evs @ [HistorySaved]\<rparr>, file)
         | (Inl e, file, evs) \<Rightarrow> Inr (s\<lparr>log := log s @ evs @ [HistorySaveFailed e]\<rparr>, file))"

text \<open>
  \<^verbatim>\<open>save_crawl_history\<close> of main.py (145-157): the file is written in place and only
  \<^verbatim>\<open>IOError\<close>, which is \<^verbatim>\<open>OSError\<close>, is caught and printed.
\<close>

definition save_crawl_history_main ::
  "datetime \<Rightarrow> history write_outcome \<Rightarrow> spider \<Rightarrow> exn + (spider \<times> history option)" where
  "save_crawl_history_main now w s =
     (let history = \<lparr>h_last_crawl_time = now, h_total_articles = length (all_articles s)\<rparr>
      in case w of
           Written \<Rightarrow> Inr (s\<lparr>log := log s @ [HistorySaved]\<rparr>, Some history)
         | WriteFails e left \<Rightarrow>
             if e = OSError then Inr (s\<lparr>log := log s @ [HistorySaveFailed e]\<rparr>, left)
             else Inl e)"

section \<open>Names for the steps of an iteration, and sample runs\<close>

text \<open>
  The total-count step of an iteration on a valid page (spider.py 367-375), in three parts:
  the total after the page, the spider after the log lines of a fetch and of the declared
  total, and the test \<^verbatim>\<open>page_index > total_pages\<close> that ends the loop.
\<close>

definition total_after :: "payload \<Rightarrow> int \<Rightarrow> int" where
  "total_after data tc = (case declared_total data of None \<Rightarrow> tc | Some n \<Rightarrow> n)"

definition after_total :: "payload \<Rightarrow> int \<Rightarrow> spider \<Rightarrow> spider" where
  "after_total data pidx s =
     (case declared_total data of
        None \<Rightarrow> say (Fetching pidx) s
      | Some n \<Rightarrow> say (TotalInfo n (total_pages_of n)) (say (Fetching pidx) s))"

definition beyond_total :: "payload \<Rightarrow> int \<Rightarrow> bool" where
  "beyond_total data pidx =
     (case declared_total data of None \<Rightarrow> False | Some n \<Rightarrow> pidx > total_pages_of n)"

text \<open>
  The spider as \<^verbatim>\<open>__init__\<close> leaves it (spider.py 58-100). The display names and
  descriptions of the two configurations are Chinese text in the source; the keys and
  empty strings stand for them.
\<close>

definition new_spider :: spider where
  "new_spider =
     \<lparr>all_articles = [], existing_article_ids = {}, last_crawl_time = None,
      configs =
        [(''original'',
          \<lparr>section_id = ''0157117713657966001'', topic_class_id = ''0672154839186846001'',
           name = ''original'', description = '''', base_url = ''https://www.hiascend.com/ascendgateway/ascendservice/devCenter/bbs/servlet/get-topic-list''\<rparr>),
         (''new_target'',
          \<lparr>section_id = ''0101178462695499013'', topic_class_id = ''0697178462739351002'',
           name = ''new_target'', description = '''', base_url = ''https://www.hiascend.com/ascendgateway/ascendservice/devCenter/bbs/servlet/get-topic-list''\<rparr>)],
      current_config =
        \<lparr>section_id = ''0157117713657966001'', topic_class_id = ''0672154839186846001'',
         name = ''original'', description = '''', base_url = ''https://www.hiascend.com/ascendgateway/ascendservice/devCenter/bbs/servlet/get-topic-list''\<rparr>,
      log = []\<rparr>"

text \<open>
  An item with only a post identifier, and the endpoint of Scenario A: 14 records in all,
  12 on the first page and 2 on the second; a request for a later page would get a full
  page.
\<close>

definition post :: "int \<Rightarrow> item" where
  "post k = [''postId'' \<mapsto> PInt k]"

definition scenario_a :: server where
  "scenario_a sec tcl pidx psize =
     WithData \<lparr>resultList =
                 Some (map post (if pidx = 1 then [1..12] else if pidx = 2 then [13..14]
                                 else [15..26])),
               totalCount = Some 14\<rparr>"


definition short_page :: "int \<Rightarrow> payload" where
  "short_page pidx = WithData \<lparr>resultList = Some (map post [1..5]), totalCount = Some 100\<rparr>"

definition short_srv :: server where
  "short_srv sec tcl pidx psize = short_page pidx"

definition stale_pages :: "int \<Rightarrow> payload" where
  "stale_pages pidx =
     WithData \<lparr>resultList = Some (if pidx = 4 then replicate 12 (post 1) else []),
               totalCount = None\<rparr>"

text \<open>
  The records of the 5-record page, and the spiders met when that endpoint is crawled
  twice, and when it is crawled in a batch after the first crawl.
\<close>

definition five_posts :: "article list" where
  "five_posts = map parse_item (map post [1..5])"

definition after_first :: spider where
  "after_first =
     new_spider\<lparr>all_articles := five_posts,
       log := [Started False ''original'', Fetching 1, TotalInfo 100 9, PageFetched 1 5,
               LastPage 5, Finished 5]\<rparr>"

definition after_second :: spider where
  "after_second =
     new_spider\<lparr>all_articles := five_posts @ five_posts,
       log := [Started False ''original'', Fetching 1, TotalInfo 100 9, PageFetched 1 5,
               LastPage 5, Finished 5,
               Started False ''original'', Fetching 1, TotalInfo 100 9, PageFetched 1 5,
               LastPage 5, Finished 10]\<rparr>"

definition emptied :: spider where
  "emptied =
     new_spider\<lparr>log := [Started False ''original'', Fetching 1, TotalInfo 100 9, PageFetched 1 5,
               LastPage 5, Finished 5, BatchStart ''original'']\<rparr>"

definition after_batch_crawl :: spider where
  "after_batch_crawl =
     new_spider\<lparr>all_articles := five_posts,
        log := [Started False ''original'', Fetching 1, TotalInfo 100 9, PageFetched 1 5,
               LastPage 5, Finished 5, BatchStart ''original'',
               Started False ''original'', Fetching 1, TotalInfo 100 9, PageFetched 1 5,
               LastPage 5, Finished 5]\<rparr>"

section \<open>Properties of the merge\<close>

lemma existing_ids_of_iff:
  "v \<in> existing_ids_of E \<longleftrightarrow> truthy v \<and> v \<in> (\<lambda>e. dict_get e ''id'' (PStr [])) ` set E"
  by (auto simp: existing_ids_of_def dict_get_def split: option.splits)

lemma merge_twice:
  "merge X (merge X Y) =
     X @ filter (\<lambda>a. \<not> truthy (dict_get a ''id'' (PStr []))) X
       @ filter (\<lambda>a. dict_get a ''id'' (PStr []) \<notin> existing_ids_of X) Y"
proof -
  have "filter (\<lambda>a. dict_get a ''id'' (PStr []) \<notin> existing_ids_of X) X
        = filter (\<lambda>a. \<not> truthy (dict_get a ''id'' (PStr []))) X"
    by (rule filter_cong) (auto simp: existing_ids_of_iff)
  then show ?thesis by (simp add: merge_def Let_def)
qed

text \<open>
  C2, as amended. Merging \<open>X\<close> into \<open>merge X Y\<close> again changes nothing exactly when every
  record of \<open>X\<close> has a non-empty identifier (\<open>Y\<close> is arbitrary). A record of \<open>X\<close> with an
  empty identifier is never deduplicated, so the second merge appends it once more.
\<close>

theorem merge_idempotent_iff:
  "(merge X (merge X Y) = merge X Y) = (\<forall>a\<in>set X. truthy (dict_get a ''id'' (PStr [])))"
  by (auto simp: merge_twice merge_def Let_def filter_empty_conv existing_ids_of_iff)

theorem merge_idempotent_iff_witness:
  "truthy (dict_get [''id'' \<mapsto> PStr ''1''] ''id'' (PStr [])) \<and>
   merge [[''id'' \<mapsto> PStr ''1'']] (merge [[''id'' \<mapsto> PStr ''1'']] [[''id'' \<mapsto> PStr []]])
     = merge [[''id'' \<mapsto> PStr ''1'']] [[''id'' \<mapsto> PStr []]]"
  using merge_idempotent_iff [of "[[''id'' \<mapsto> PStr ''1'']]" "[[''id'' \<mapsto> PStr []]]"]
  by (simp add: dict_get_def)

text \<open>
  C2 as stated fails: with \<open>X\<close> a single record whose identifier is the empty string and
  \<open>Y\<close> empty, \<open>merge X Y\<close> has one record and \<open>merge X (merge X Y)\<close> has two.
\<close>

theorem merge_idempotent_counterexample:
  "merge [[''id'' \<mapsto> PStr []]] (merge [[''id'' \<mapsto> PStr []]] [])
     \<noteq> merge [[''id'' \<mapsto> PStr []]] []"
  by (simp add: merge_def existing_ids_of_def dict_get_def)



section \<open>Properties of the dedup/time filter\<close>

lemma filter_loop_skip:
  "is_duplicate ids r \<Longrightarrow>
   filter_loop L since ids new (r # rest) = filter_loop L since ids new rest"
  by (simp add: is_duplicate_def Let_def)

lemma filter_loop_accept:
  "\<not> is_duplicate ids r \<Longrightarrow> is_article_newer L r since = Inr True \<Longrightarrow>
   filter_loop L since ids new (r # rest)
     = filter_loop L since (seen_with ids r) (new @ [r]) rest"
  by (auto simp: is_duplicate_def seen_with_def Let_def)

lemma filter_loop_reject:
  "\<not> is_duplicate ids r \<Longrightarrow> is_article_newer L r since = Inr False \<Longrightarrow>
   filter_loop L since ids new (r # rest) = filter_loop L since ids new rest"
  by (auto simp: is_duplicate_def Let_def)

lemma filter_loop_raise:
  "\<not> is_duplicate ids r \<Longrightarrow> is_article_newer L r since = Inl e \<Longrightarrow>
   filter_loop L since ids new (r # rest) = Inl e"
  by (auto simp: is_duplicate_def Let_def)

declare filter_loop.simps(2) [simp del]

text \<open>The seen set only grows, and no duplicate of the starting set is ever added.\<close>

lemma filter_loop_sound:
  "filter_loop L since ids new as = Inr (new', ids') \<Longrightarrow>
   ids \<subseteq> ids' \<and> (\<forall>a\<in>set new'. a \<in> set new \<or> \<not> is_duplicate ids a)"
proof (induction as arbitrary: ids new)
  case Nil
  then show ?case by simp
next
  case (Cons r rest)
  show ?case
  proof (cases "is_duplicate ids r")
    case True
    with Cons.prems have "filter_loop L since ids new rest = Inr (new', ids')"
      by (simp add: filter_loop_skip)
    from Cons.IH[OF this] show ?thesis .
  next
    case nd: False
    from Cons.prems nd obtain b where nb: "is_article_newer L r since = Inr b"
      by (cases "is_article_newer L r since") (auto simp: filter_loop_raise)
    show ?thesis
    proof (cases b)
      case False
      with Cons.prems nd nb have "filter_loop L since ids new rest = Inr (new', ids')"
        by (simp add: filter_loop_reject)
      from Cons.IH[OF this] show ?thesis .
    next
      case True
      with Cons.prems nd nb
      have "filter_loop L since (seen_with ids r) (new @ [r]) rest = Inr (new', ids')"
        by (simp add: filter_loop_accept)
      from Cons.IH[OF this]
      have sub: "seen_with ids r \<subseteq> ids'"
        and mem: "\<forall>a\<in>set new'. a \<in> set (new @ [r]) \<or> \<not> is_duplicate (seen_with ids r) a"
        by simp_all
      have s0: "ids \<subseteq> seen_with ids r" by (auto simp: seen_with_def)
      have "\<forall>a\<in>set new'. a \<in> set new \<or> \<not> is_duplicate ids a"
      proof
        fix a assume "a \<in> set new'"
        with mem have "a \<in> set (new @ [r]) \<or> \<not> is_duplicate (seen_with ids r) a" by blast
        then show "a \<in> set new \<or> \<not> is_duplicate ids a"
          using nd s0 by (auto simp: is_duplicate_def)
      qed
      with sub s0 show ?thesis by blast
    qed
  qed
qed

lemma lacks_time_parse: "lacks_time L v \<Longrightarrow> parse_timestamp L v = Inr None"
  by (cases v) (auto simp: parse_timestamp_def)

lemma newer_of_effective:
  "effective_time L r = Inr (Some t) \<Longrightarrow> is_article_newer L r (Some since) = Inr (since < t)"
  by (auto simp: effective_time_def is_article_newer_def split: sum.splits option.splits)

lemma newer_of_lacks:
  "lacks_time L (dict_get r ''update_time'' (PStr [])) \<Longrightarrow>
   lacks_time L (dict_get r ''publish_time'' (PStr [])) \<Longrightarrow>
   is_article_newer L r since = Inr True"
  by (simp add: is_article_newer_def lacks_time_parse split: option.splits)

text \<open>
  C3. A record whose identifier is non-empty and already in the seen set is rejected,
  whatever the threshold (set or unset): filtering it alone returns no record and the
  same seen set, the loop passes over it without touching the accumulated list or the
  set, and it is in no list the filter returns.
\<close>

theorem dedup_rejects_seen:
  assumes "truthy (dict_get r ''id'' (PStr []))" and "dict_get r ''id'' (PStr []) \<in> ids"
  shows "filter_new_articles L ids [r] since_time = Inr ([], ids) \<and>
         filter_loop L since_time ids new (r # rest) = filter_loop L since_time ids new rest \<and>
         (filter_new_articles L ids articles since_time = Inr (new', ids') \<longrightarrow> r \<notin> set new')"
proof -
  from assms have d: "is_duplicate ids r" by (simp add: is_duplicate_def)
  have "filter_new_articles L ids articles since_time = Inr (new', ids') \<Longrightarrow> r \<notin> set new'"
    using filter_loop_sound[of L since_time ids "[]" articles new' ids'] d
    by (auto simp: filter_new_articles_def)
  with d show ?thesis by (auto simp: filter_new_articles_def filter_loop_skip)
qed

theorem dedup_rejects_seen_witness:
  "truthy (dict_get [''id'' \<mapsto> PStr ''7''] ''id'' (PStr [])) \<and>
   dict_get [''id'' \<mapsto> PStr ''7''] ''id'' (PStr []) \<in> {PStr ''7''} \<and>
   filter_new_articles sample_lib {PStr ''7''} [[''id'' \<mapsto> PStr ''7'']] None
     = Inr ([], {PStr ''7''}) \<and>
   [''id'' \<mapsto> PStr ''7''] \<notin> set ([] :: article list)"
proof -
  have a: "truthy (dict_get [''id'' \<mapsto> PStr ''7''] ''id'' (PStr []))"
    by (simp add: dict_get_def)
  have b: "dict_get [''id'' \<mapsto> PStr ''7''] ''id'' (PStr []) \<in> {PStr ''7''}"
    by (simp add: dict_get_def)
  show ?thesis
    using a b dedup_rejects_seen [OF a b, of sample_lib None "[]" "[]"
        "[[''id'' \<mapsto> PStr ''7'']]" "[]" "{PStr ''7''}"]
    by simp
qed

text \<open>
  C7. A record whose update time and publish time are both missing, empty or not an
  integer string, and which is not a duplicate, is accepted for every threshold, set or
  unset: it is returned and its identifier, when non-empty, joins the seen set.
\<close>

theorem unknown_time_included:
  assumes "lacks_time L (dict_get r ''update_time'' (PStr []))"
    and "lacks_time L (dict_get r ''publish_time'' (PStr []))"
    and "\<not> is_duplicate ids r"
  shows "filter_new_articles L ids [r] since_time = Inr ([r], seen_with ids r) \<and>
         filter_loop L since_time ids new (r # rest)
           = filter_loop L since_time (seen_with ids r) (new @ [r]) rest"
  using assms by (simp add: filter_new_articles_def filter_loop_accept newer_of_lacks)

theorem unknown_time_included_witness:
  "lacks_time sample_lib
     (dict_get [''id'' \<mapsto> PStr ''7'', ''update_time'' \<mapsto> PStr ''soon''] ''update_time'' (PStr [])) \<and>
   lacks_time sample_lib
     (dict_get [''id'' \<mapsto> PStr ''7'', ''update_time'' \<mapsto> PStr ''soon''] ''publish_time'' (PStr [])) \<and>
   \<not> is_duplicate {PStr ''8''} [''id'' \<mapsto> PStr ''7'', ''update_time'' \<mapsto> PStr ''soon''] \<and>
   filter_new_articles sample_lib {PStr ''8''}
     [[''id'' \<mapsto> PStr ''7'', ''update_time'' \<mapsto> PStr ''soon'']] (Some 1700000000000000)
     = Inr ([[''id'' \<mapsto> PStr ''7'', ''update_time'' \<mapsto> PStr ''soon'']], {PStr ''7'', PStr ''8''})"
proof -
  let ?r = "[''id'' \<mapsto> PStr ''7'', ''update_time'' \<mapsto> PStr ''soon'']"
  have a: "lacks_time sample_lib (dict_get ?r ''update_time'' (PStr []))"
    by (simp add: dict_get_def sample_lib_def decimal_def)
  have b: "lacks_time sample_lib (dict_get ?r ''publish_time'' (PStr []))"
    by (simp add: dict_get_def)
  have c: "\<not> is_duplicate {PStr ''8''} ?r" by (simp add: is_duplicate_def dict_get_def)
  have s: "seen_with {PStr ''8''} ?r = {PStr ''7'', PStr ''8''}"
    by (simp add: seen_with_def dict_get_def)
  show ?thesis
    using a b c s unknown_time_included [OF a b c, of "Some 1700000000000000" "[]" "[]"]
    by simp
qed

text \<open>
  C1, as amended. For a record whose effective time \<open>t\<close> is known and a set threshold, the
  time check passes exactly when \<open>t\<close> is strictly later than the threshold, and the filter
  accepts the record exactly when, besides, it is not a duplicate: a record at the
  threshold is rejected, a record one second later is accepted unless its identifier was
  already seen.
\<close>

theorem time_filter_strict:
  assumes "effective_time L r = Inr (Some t)"
  shows "is_article_newer L r (Some since) = Inr (since < t) \<and>
         filter_new_articles L ids [r] (Some since)
           = Inr (if \<not> is_duplicate ids r \<and> since < t then ([r], seen_with ids r)
                  else ([], ids))"
proof (cases "is_duplicate ids r")
  case True
  then show ?thesis using assms
    by (simp add: filter_new_articles_def filter_loop_skip newer_of_effective)
next
  case False
  then show ?thesis using newer_of_effective[OF assms, of since]
    by (cases "since < t")
      (simp_all add: filter_new_articles_def filter_loop_accept filter_loop_reject)
qed

theorem time_filter_strict_witness:
  "effective_time sample_lib [''id'' \<mapsto> PStr ''7'', ''update_time'' \<mapsto> PStr ''1700000001'']
     = Inr (Some 1700000001000000) \<and>
   filter_new_articles sample_lib {}
     [[''id'' \<mapsto> PStr ''7'', ''update_time'' \<mapsto> PStr ''1700000001'']] (Some 1700000000000000)
     = Inr ([[''id'' \<mapsto> PStr ''7'', ''update_time'' \<mapsto> PStr ''1700000001'']], {PStr ''7''}) \<and>
   filter_new_articles sample_lib {}
     [[''id'' \<mapsto> PStr ''7'', ''update_time'' \<mapsto> PStr ''1700000001'']] (Some 1700000001000000)
     = Inr ([], {})"
proof -
  let ?r = "[''id'' \<mapsto> PStr ''7'', ''update_time'' \<mapsto> PStr ''1700000001'']"
  have e: "effective_time sample_lib ?r = Inr (Some 1700000001000000)"
    by (simp add: effective_time_def parse_timestamp_def dict_get_def sample_lib_def decimal_def
        utc_seconds_def)
  have d: "\<not> is_duplicate {} ?r" by (simp add: is_duplicate_def)
  have s: "seen_with {} ?r = {PStr ''7''}" by (simp add: seen_with_def dict_get_def)
  show ?thesis
    using e d s time_filter_strict [OF e, of 1700000000000000 "{}"]
      time_filter_strict [OF e, of 1700000001000000 "{}"]
    by simp
qed

text \<open>
  C1 as stated fails on a duplicate: the record below has the effective time one second
  after the threshold, its identifier is in the seen set, and the filter rejects it.
\<close>

theorem time_filter_counterexample:
  "effective_time sample_lib [''id'' \<mapsto> PStr ''7'', ''update_time'' \<mapsto> PStr ''1700000001'']
     = Inr (Some (1700000000000000 + 1000000)) \<and>
   filter_new_articles sample_lib {PStr ''7''}
     [[''id'' \<mapsto> PStr ''7'', ''update_time'' \<mapsto> PStr ''1700000001'']] (Some 1700000000000000)
     = Inr ([], {PStr ''7''})"
  by (simp add: filter_new_articles_def filter_loop.simps(2) effective_time_def
      parse_timestamp_def dict_get_def sample_lib_def decimal_def utc_seconds_def)

section \<open>Properties of the crawl loop\<close>

text \<open>
  One iteration, case by case.
\<close>

lemma crawl_loop_exit:
  "\<not> pidx \<le> max_pages \<Longrightarrow>
   crawl_loop L fetch max_pages incremental filter_time pidx tc nc s
     = Inr \<lparr>page_index = pidx, total_count = tc, new_articles_count = nc, self = s\<rparr>"
  by (subst crawl_loop.simps) simp

lemma crawl_loop_invalid:
  "pidx \<le> max_pages \<Longrightarrow> invalid_payload (fetch pidx) \<Longrightarrow>
   crawl_loop L fetch max_pages incremental filter_time pidx tc nc s
     = crawl_loop L fetch max_pages incremental filter_time (pidx + 1) tc nc
         (say (InvalidPage pidx) (say (Fetching pidx) s))"
  by (subst crawl_loop.simps) (simp add: Let_def)

lemma crawl_loop_beyond:
  "pidx \<le> max_pages \<Longrightarrow> \<not> invalid_payload (fetch pidx) \<Longrightarrow> beyond_total (fetch pidx) pidx \<Longrightarrow>
   crawl_loop L fetch max_pages incremental filter_time pidx tc nc s
     = Inr \<lparr>page_index = pidx, total_count = total_after (fetch pidx) tc, new_articles_count = nc,
            self = say (AllPagesFetched (total_pages_of (total_after (fetch pidx) tc)))
                     (after_total (fetch pidx) pidx s)\<rparr>"
  by (subst crawl_loop.simps) (simp add: Let_def beyond_total_def after_total_def total_after_def)

lemma crawl_loop_raise:
  "pidx \<le> max_pages \<Longrightarrow> \<not> invalid_payload (fetch pidx) \<Longrightarrow> \<not> beyond_total (fetch pidx) pidx \<Longrightarrow>
   accumulate L incremental filter_time pidx (parse_articles (fetch pidx)) nc
     (after_total (fetch pidx) pidx s) = Inl e \<Longrightarrow>
   crawl_loop L fetch max_pages incremental filter_time pidx tc nc s = Inl e"
  by (subst crawl_loop.simps) (simp add: Let_def beyond_total_def after_total_def total_after_def)

lemma crawl_loop_last:
  "pidx \<le> max_pages \<Longrightarrow> \<not> invalid_payload (fetch pidx) \<Longrightarrow> \<not> beyond_total (fetch pidx) pidx \<Longrightarrow>
   accumulate L incremental filter_time pidx (parse_articles (fetch pidx)) nc
     (after_total (fetch pidx) pidx s) = Inr (nc', s3) \<Longrightarrow>
   int (length (parse_articles (fetch pidx))) < page_size \<Longrightarrow>
   crawl_loop L fetch max_pages incremental filter_time pidx tc nc s
     = Inr \<lparr>page_index = pidx, total_count = total_after (fetch pidx) tc,
            new_articles_count = nc',
            self = say (LastPage (length (parse_articles (fetch pidx)))) s3\<rparr>"
  by (subst crawl_loop.simps) (simp add: Let_def beyond_total_def after_total_def total_after_def)

lemma crawl_loop_next:
  "pidx \<le> max_pages \<Longrightarrow> \<not> invalid_payload (fetch pidx) \<Longrightarrow> \<not> beyond_total (fetch pidx) pidx \<Longrightarrow>
   accumulate L incremental filter_time pidx (parse_articles (fetch pidx)) nc
     (after_total (fetch pidx) pidx s) = Inr (nc', s3) \<Longrightarrow>
   \<not> int (length (parse_articles (fetch pidx))) < page_size \<Longrightarrow>
   crawl_loop L fetch max_pages incremental filter_time pidx tc nc s
     = crawl_loop L fetch max_pages incremental filter_time (pidx + 1)
         (total_after (fetch pidx) tc) nc' s3"
  by (subst crawl_loop.simps) (simp add: Let_def beyond_total_def after_total_def total_after_def)

declare crawl_loop.simps [simp del]

lemma filter_new_articles_grows:
  "filter_new_articles L ids articles ft = Inr (new', ids') \<Longrightarrow> ids \<subseteq> ids'"
  using filter_loop_sound[of L ft ids "[]" articles new' ids']
  by (simp add: filter_new_articles_def)

lemma accumulate_grows:
  assumes "accumulate L incremental filter_time pidx articles nc s = Inr (nc', s')"
  shows "prefix (all_articles s) (all_articles s') \<and> prefix (log s) (log s') \<and>
         existing_article_ids s \<subseteq> existing_article_ids s' \<and> configs s' = configs s"
proof (cases "incremental \<or> filter_time \<noteq> None")
  case False
  with assms show ?thesis by (auto simp: accumulate_def)
next
  case True
  with assms obtain fa ids where
    f: "filter_new_articles L (existing_article_ids s) articles filter_time = Inr (fa, ids)"
    by (cases "filter_new_articles L (existing_article_ids s) articles filter_time")
       (auto simp: accumulate_def)
  from filter_new_articles_grows[OF f] have "existing_article_ids s \<subseteq> ids" .
  with assms True f show ?thesis by (auto simp: accumulate_def)
qed

lemma after_total_same:
  "all_articles (after_total data pidx s) = all_articles s \<and>
   existing_article_ids (after_total data pidx s) = existing_article_ids s \<and>
   configs (after_total data pidx s) = configs s \<and>
   prefix (log s @ [Fetching pidx]) (log (after_total data pidx s))"
  by (simp add: after_total_def say_def split: option.splits)

text \<open>
  A run only appends to the accumulated list and to the log, only adds to the seen set,
  never lowers the page index and leaves the configurations alone.
\<close>

lemma crawl_loop_grows:
  "crawl_loop L fetch max_pages incremental filter_time pidx tc nc s = Inr c \<Longrightarrow>
   prefix (all_articles s) (all_articles (self c)) \<and> prefix (log s) (log (self c)) \<and>
   existing_article_ids s \<subseteq> existing_article_ids (self c) \<and> pidx \<le> page_index c \<and>
   configs (self c) = configs s"
proof (induction L fetch max_pages incremental filter_time pidx tc nc s rule: crawl_loop.induct)
  case (1 L fetch max_pages incremental filter_time pidx tc nc s)
  show ?case
  proof (cases "pidx \<le> max_pages")
    case False
    with "1.prems" show ?thesis by (auto simp: crawl_loop_exit)
  next
    case le: True
    show ?thesis
    proof (cases "invalid_payload (fetch pidx)")
      case True
      with le "1.prems"
      have "crawl_loop L fetch max_pages incremental filter_time (pidx + 1) tc nc
              (say (InvalidPage pidx) (say (Fetching pidx) s)) = Inr c"
        by (simp add: crawl_loop_invalid)
      from "1.IH"(1)[OF le refl refl True this] show ?thesis
        by (auto simp: say_def dest: append_prefixD)
    next
      case valid: False
      show ?thesis
      proof (cases "beyond_total (fetch pidx) pidx")
        case True
        with le valid "1.prems" show ?thesis
          using after_total_same[of "fetch pidx" pidx s]
          by (auto simp: crawl_loop_beyond say_def dest: append_prefixD intro: prefix_order.trans)
      next
        case nb: False
        show ?thesis
        proof (cases "accumulate L incremental filter_time pidx (parse_articles (fetch pidx)) nc
                        (after_total (fetch pidx) pidx s)")
          case (Inl e)
          with le valid nb "1.prems" show ?thesis by (simp add: crawl_loop_raise)
        next
          case (Inr r)
          obtain nc' s3 where r: "r = (nc', s3)" by (cases r)
          note acc = Inr[unfolded r]
          from accumulate_grows[OF acc] after_total_same[of "fetch pidx" pidx s]
          have g: "prefix (all_articles s) (all_articles s3)" "prefix (log s) (log s3)"
            "existing_article_ids s \<subseteq> existing_article_ids s3" "configs s3 = configs s"
            by (auto dest: append_prefixD intro: prefix_order.trans)
          show ?thesis
          proof (cases "int (length (parse_articles (fetch pidx))) < page_size")
            case True
            with le valid nb acc "1.prems" g show ?thesis
              by (auto simp: crawl_loop_last say_def)
          next
            case False
            with le valid nb acc "1.prems"
            have rec: "crawl_loop L fetch max_pages incremental filter_time (pidx + 1)
                    (total_after (fetch pidx) tc) nc' s3 = Inr c"
              by (simp add: crawl_loop_next)
            have "prefix (all_articles s3) (all_articles (self c)) \<and>
                  prefix (log s3) (log (self c)) \<and>
                  existing_article_ids s3 \<subseteq> existing_article_ids (self c) \<and>
                  pidx + 1 \<le> page_index c \<and> configs (self c) = configs s3"
              using "1.IH"(2) le valid nb acc False rec
              by (simp add: beyond_total_def after_total_def total_after_def)
            with g show ?thesis by (auto intro: prefix_order.trans)
          qed
        qed
      qed
    qed
  qed
qed




lemma last_page_step:
  assumes "pidx \<le> max_pages"
    and "\<not> invalid_payload (fetch pidx)"
    and "int (length (parse_articles (fetch pidx))) < page_size"
  shows "(\<forall>c. crawl_loop L fetch max_pages incremental filter_time pidx tc nc s = Inr c \<longrightarrow>
              page_index c = pidx) \<and>
         (\<not> beyond_total (fetch pidx) pidx \<longrightarrow>
            crawl_loop L fetch max_pages incremental filter_time pidx tc nc s
              = (case accumulate L incremental filter_time pidx (parse_articles (fetch pidx)) nc
                        (after_total (fetch pidx) pidx s) of
                   Inl e \<Rightarrow> Inl e
                 | Inr (nc', s3) \<Rightarrow>
                     Inr \<lparr>page_index = pidx, total_count = total_after (fetch pidx) tc,
                          new_articles_count = nc',
                          self = say (LastPage (length (parse_articles (fetch pidx)))) s3\<rparr>))"
proof (cases "beyond_total (fetch pidx) pidx")
  case True
  with assms show ?thesis by (auto simp: crawl_loop_beyond)
next
  case nb: False
  show ?thesis
  proof (cases "accumulate L incremental filter_time pidx (parse_articles (fetch pidx)) nc
                  (after_total (fetch pidx) pidx s)")
    case (Inl e)
    with assms nb show ?thesis by (simp add: crawl_loop_raise)
  next
    case (Inr r)
    obtain nc' s3 where r: "r = (nc', s3)" by (cases r)
    note acc = Inr[unfolded r]
    with assms nb show ?thesis by (auto simp: crawl_loop_last)
  qed
qed

lemma scenario_a_run:
  "get_all_articles L scenario_a 100 None False None new_spider
     = Inr (map parse_item (map post [1..12]) @ map parse_item (map post [13..14]),
            new_spider\<lparr>all_articles :=
                map parse_item (map post [1..12]) @ map parse_item (map post [13..14]),
              log := [Started False ''original'', Fetching 1, TotalInfo 14 2, PageFetched 1 12,
                      Fetching 2, TotalInfo 14 2, PageFetched 2 2, LastPage 2, Finished 14]\<rparr>)"
  apply (simp add: get_all_articles_def new_spider_def say_def get_page_data_def)
  apply (simp add: crawl_loop.simps[of _ _ _ _ _ 1] crawl_loop.simps[of _ _ _ _ _ 2] Let_def scenario_a_def say_def
        parse_articles_def accumulate_def page_size_def total_pages_of_def)
  done

text \<open>
  C5. On a valid page with fewer records than the page size the loop returns at that page
  index, whatever total the page declares. The records of a page are counted once the
  page is parsed, that is, once the total-count rule has let the iteration pass; then the
  page is accumulated and the loop returns without another fetch. In Scenario A (14
  records, page size 12) the crawl fetches pages 1 and 2 and accumulates 14 records.
\<close>

theorem last_page_stops:
  "(pidx \<le> max_pages \<and> \<not> invalid_payload (fetch pidx) \<and>
    int (length (parse_articles (fetch pidx))) < page_size \<longrightarrow>
      (\<forall>c. crawl_loop L fetch max_pages incremental filter_time pidx tc nc s = Inr c \<longrightarrow>
           page_index c = pidx) \<and>
      (\<not> beyond_total (fetch pidx) pidx \<longrightarrow>
         crawl_loop L fetch max_pages incremental filter_time pidx tc nc s
           = (case accumulate L incremental filter_time pidx (parse_articles (fetch pidx)) nc
                     (after_total (fetch pidx) pidx s) of
                Inl e \<Rightarrow> Inl e
              | Inr (nc', s3) \<Rightarrow>
                  Inr \<lparr>page_index = pidx, total_count = total_after (fetch pidx) tc,
                       new_articles_count = nc',
                       self = say (LastPage (length (parse_articles (fetch pidx)))) s3\<rparr>))) \<and>
   get_all_articles L scenario_a 100 None False None new_spider
     = Inr (map parse_item (map post [1..12]) @ map parse_item (map post [13..14]),
            new_spider\<lparr>all_articles :=
                map parse_item (map post [1..12]) @ map parse_item (map post [13..14]),
              log := [Started False ''original'', Fetching 1, TotalInfo 14 2, PageFetched 1 12,
                      Fetching 2, TotalInfo 14 2, PageFetched 2 2, LastPage 2, Finished 14]\<rparr>) \<and>
   length (map parse_item (map post [1..12]) @ map parse_item (map post [13..14])) = 14"
  using last_page_step [of pidx max_pages fetch L incremental filter_time tc nc s]
    scenario_a_run [of L]
  by simp

theorem last_page_stops_witness:
  "(1::int) \<le> 100 \<and> \<not> invalid_payload (short_page 1) \<and>
   int (length (parse_articles (short_page 1))) < page_size \<and>
   \<not> beyond_total (short_page 1) 1 \<and>
   crawl_loop sample_lib short_page 100 False None 1 0 0 new_spider
     = Inr \<lparr>page_index = 1, total_count = 100, new_articles_count = 5,
            self = new_spider\<lparr>all_articles := map parse_item (map post [1..5]),
                     log := [Fetching 1, TotalInfo 100 9, PageFetched 1 5, LastPage 5]\<rparr>\<rparr>"
proof -
  have a: "(1::int) \<le> 100" by simp
  have b: "\<not> invalid_payload (short_page 1)" by (simp add: short_page_def)
  have c: "int (length (parse_articles (short_page 1))) < page_size"
    by (simp add: short_page_def parse_articles_def page_size_def)
  have d: "\<not> beyond_total (short_page 1) 1"
    by (simp add: beyond_total_def short_page_def total_pages_of_def page_size_def)
  have e: "accumulate sample_lib False None 1 (parse_articles (short_page 1)) 0
             (after_total (short_page 1) 1 new_spider)
     = Inr (5, new_spider\<lparr>all_articles := map parse_item (map post [1..5]),
                 log := [Fetching 1, TotalInfo 100 9, PageFetched 1 5]\<rparr>)"
    by (simp add: accumulate_def after_total_def short_page_def parse_articles_def say_def
        total_pages_of_def page_size_def new_spider_def)
  have f: "total_after (short_page 1) 0 = 100" by (simp add: total_after_def short_page_def)
  have g: "length (parse_articles (short_page 1)) = 5"
    by (simp add: short_page_def parse_articles_def)
  show ?thesis
    using a b c d last_page_stops [where pidx = 1 and max_pages = 100 and fetch = short_page
        and L = sample_lib and incremental = False and filter_time = None and tc = 0 and nc = 0
        and s = new_spider]
    by (simp add: e f g say_def)
qed

text \<open>
  A page on which nothing is accepted leaves the seen set as it was.
\<close>

lemma filter_loop_length:
  "filter_loop L since ids new as = Inr (new', ids') \<Longrightarrow>
   length new \<le> length new' \<and> (length new' = length new \<longrightarrow> ids' = ids)"
proof (induction as arbitrary: ids new)
  case Nil
  then show ?case by simp
next
  case (Cons r rest)
  show ?case
  proof (cases "is_duplicate ids r")
    case True
    with Cons.prems have "filter_loop L since ids new rest = Inr (new', ids')"
      by (simp add: filter_loop_skip)
    from Cons.IH[OF this] show ?thesis .
  next
    case nd: False
    from Cons.prems nd obtain b where nb: "is_article_newer L r since = Inr b"
      by (cases "is_article_newer L r since") (auto simp: filter_loop_raise)
    show ?thesis
    proof (cases b)
      case False
      with Cons.prems nd nb have "filter_loop L since ids new rest = Inr (new', ids')"
        by (simp add: filter_loop_reject)
      from Cons.IH[OF this] show ?thesis .
    next
      case True
      with Cons.prems nd nb
      have "filter_loop L since (seen_with ids r) (new @ [r]) rest = Inr (new', ids')"
        by (simp add: filter_loop_accept)
      from Cons.IH[OF this] show ?thesis by simp
    qed
  qed
qed

lemma filter_all_duplicates:
  "\<forall>a\<in>set as. is_duplicate ids a \<Longrightarrow> filter_loop L ft ids new as = Inr (new, ids)"
  by (induction as) (simp_all add: filter_loop_skip)

text \<open>
  C8. In incremental mode, on a valid page beyond page 3 from which no record is accepted,
  and which neither the total-count rule nor the short-page rule ends, the loop goes on
  from the next page index: the seen set and the accumulated list are unchanged and the
  log gains the page line and the diagnostic. Whether the next page is fetched is then
  decided by \<^verbatim>\<open>max_pages\<close> alone.
\<close>

theorem heuristic_does_not_stop:
  assumes "pidx \<le> max_pages"
    and "\<not> invalid_payload (fetch pidx)"
    and "\<not> beyond_total (fetch pidx) pidx"
    and "filter_new_articles L (existing_article_ids s) (parse_articles (fetch pidx)) filter_time
           = Inr ([], ids')"
    and "pidx > 3"
    and "\<not> int (length (parse_articles (fetch pidx))) < page_size"
  shows "ids' = existing_article_ids s \<and>
         crawl_loop L fetch max_pages True filter_time pidx tc nc s
           = crawl_loop L fetch max_pages True filter_time (pidx + 1)
               (total_after (fetch pidx) tc) nc
               ((after_total (fetch pidx) pidx s)
                  \<lparr>log := log (after_total (fetch pidx) pidx s)
                     @ [PageFiltered pidx (length (parse_articles (fetch pidx))) 0,
                        NoNewArticles]\<rparr>)"
proof -
  let ?s2 = "after_total (fetch pidx) pidx s"
  have ids: "existing_article_ids ?s2 = existing_article_ids s"
    using after_total_same[of "fetch pidx" pidx s] by simp
  have same: "ids' = existing_article_ids s"
    using filter_loop_length[of L filter_time "existing_article_ids s" "[]"
        "parse_articles (fetch pidx)" "[]" ids'] assms(4)
    by (simp add: filter_new_articles_def)
  with assms(4,5) ids
  have acc: "accumulate L True filter_time pidx (parse_articles (fetch pidx)) nc ?s2
     = Inr (nc, ?s2\<lparr>log := log ?s2
                     @ [PageFiltered pidx (length (parse_articles (fetch pidx))) 0,
                        NoNewArticles]\<rparr>)"
    by (simp add: accumulate_def)
  show ?thesis
    using assms(1,2,3,6) acc same by (simp add: crawl_loop_next)
qed

theorem heuristic_does_not_stop_witness:
  "(4::int) \<le> 10 \<and> \<not> invalid_payload (stale_pages 4) \<and> \<not> beyond_total (stale_pages 4) 4 \<and>
   filter_new_articles sample_lib {PInt 1} (parse_articles (stale_pages 4)) None
     = Inr ([], {PInt 1}) \<and>
   (4::int) > 3 \<and> \<not> int (length (parse_articles (stale_pages 4))) < page_size \<and>
   crawl_loop sample_lib stale_pages 10 True None 4 0 0
       (new_spider\<lparr>existing_article_ids := {PInt 1}\<rparr>)
     = Inr \<lparr>page_index = 5, total_count = 0, new_articles_count = 0,
            self = new_spider\<lparr>existing_article_ids := {PInt 1},
                     log := [Fetching 4, PageFiltered 4 12 0, NoNewArticles,
                             Fetching 5, PageFiltered 5 0 0, NoNewArticles, LastPage 0]\<rparr>\<rparr>"
proof -
  let ?s = "new_spider\<lparr>existing_article_ids := {PInt 1}\<rparr>"
  have a: "(4::int) \<le> 10" by simp
  have b: "\<not> invalid_payload (stale_pages 4)" by (simp add: stale_pages_def)
  have c: "\<not> beyond_total (stale_pages 4) 4" by (simp add: beyond_total_def stale_pages_def)
  have dup: "\<forall>r\<in>set (parse_articles (stale_pages 4)). is_duplicate {PInt 1} r"
    by (simp add: stale_pages_def parse_articles_def is_duplicate_def parse_item_def post_def
        dict_get_def)
  have d: "filter_new_articles sample_lib (existing_article_ids ?s)
             (parse_articles (stale_pages 4)) None = Inr ([], {PInt 1})"
    using filter_all_duplicates[OF dup, of sample_lib None "[]"]
    by (simp add: filter_new_articles_def new_spider_def)
  have e: "(4::int) > 3" by simp
  have f: "\<not> int (length (parse_articles (stale_pages 4))) < page_size"
    by (simp add: stale_pages_def parse_articles_def page_size_def)
  have g: "length (parse_articles (stale_pages 4)) = 12"
    by (simp add: stale_pages_def parse_articles_def)
  have h: "total_after (stale_pages 4) 0 = 0" by (simp add: total_after_def stale_pages_def)
  have i: "after_total (stale_pages 4) 4 ?s = ?s\<lparr>log := [Fetching 4]\<rparr>"
    by (simp add: after_total_def stale_pages_def say_def new_spider_def)
  have j: "crawl_loop sample_lib stale_pages 10 True None 5 0 0
             (?s\<lparr>log := [Fetching 4, PageFiltered 4 12 0, NoNewArticles]\<rparr>)
     = Inr \<lparr>page_index = 5, total_count = 0, new_articles_count = 0,
            self = new_spider\<lparr>existing_article_ids := {PInt 1},
                     log := [Fetching 4, PageFiltered 4 12 0, NoNewArticles,
                             Fetching 5, PageFiltered 5 0 0, NoNewArticles, LastPage 0]\<rparr>\<rparr>"
    by (simp add: crawl_loop.simps[of _ _ _ _ _ 5] stale_pages_def Let_def say_def
        parse_articles_def accumulate_def filter_new_articles_def page_size_def new_spider_def)
  show ?thesis
    using a b c d e f heuristic_does_not_stop [where pidx = 4 and max_pages = 10
        and fetch = stale_pages and L = sample_lib and filter_time = None and tc = 0 and nc = 0
        and s = ?s and ids' = "{PInt 1}"]
    by (simp add: g h i j)
qed

section \<open>Properties of the accumulator\<close>

lemma get_all_articles_grows:
  assumes "get_all_articles L srv max_pages cfg incremental since_time s = Inr (arts, s')"
  shows "arts = all_articles s' \<and> prefix (all_articles s) arts \<and> configs s' = configs s"
proof -
  let ?ft = "case since_time of Some t \<Rightarrow> Some t
             | None \<Rightarrow> if incremental then last_crawl_time s else None"
  let ?config = "case cfg of None \<Rightarrow> current_config s | Some c \<Rightarrow> c"
  let ?s0 = "say (Started incremental (name ?config)) s"
  let ?s1 = "case ?ft of None \<Rightarrow> ?s0 | Some t \<Rightarrow> say (FilterTime t) ?s0"
  have unfold: "get_all_articles L srv max_pages cfg incremental since_time s =
      (case crawl_loop L (\<lambda>page_index. get_page_data srv page_index page_size ?config)
          max_pages incremental ?ft 1 0 0 ?s1 of
         Inl e \<Rightarrow> Inl e
       | Inr c \<Rightarrow>
           Inr (all_articles
                  (if incremental
                   then say (NewCount (new_articles_count c))
                          (say (Finished (length (all_articles (self c)))) (self c))
                   else say (Finished (length (all_articles (self c)))) (self c)),
                if incremental
                then say (NewCount (new_articles_count c))
                       (say (Finished (length (all_articles (self c)))) (self c))
                else say (Finished (length (all_articles (self c)))) (self c)))"
    by (simp only: get_all_articles_def Let_def)
  from assms obtain c where
    c: "crawl_loop L (\<lambda>page_index. get_page_data srv page_index page_size ?config)
          max_pages incremental ?ft 1 0 0 ?s1 = Inr c"
    unfolding unfold
    by (cases "crawl_loop L (\<lambda>page_index. get_page_data srv page_index page_size ?config)
          max_pages incremental ?ft 1 0 0 ?s1") simp_all
  have s1: "all_articles ?s1 = all_articles s" "configs ?s1 = configs s"
    by (simp_all add: say_def split: option.splits)
  from crawl_loop_grows[OF c] s1
  have g: "prefix (all_articles s) (all_articles (self c))" "configs (self c) = configs s"
    by simp_all
  from assms[unfolded unfold c] have
    "arts = all_articles s'" and
    "s' = (if incremental
           then say (NewCount (new_articles_count c))
                  (say (Finished (length (all_articles (self c)))) (self c))
           else say (Finished (length (all_articles (self c)))) (self c))"
    by auto
  with g show ?thesis by (simp add: say_def)
qed

lemma batch_loop_results:
  "batch_loop L srv max_pages incremental since_time names results s = Inr (results', s') \<Longrightarrow>
   results' nm = Some arts \<Longrightarrow>
   results nm = Some arts \<or>
   (\<exists>config s0 s1. map_of (configs s) nm = Some config \<and> all_articles s0 = [] \<and>
      get_all_articles L srv max_pages (Some config) incremental since_time s0 = Inr (arts, s1))"
proof (induction names arbitrary: results s)
  case Nil
  then show ?case by simp
next
  case (Cons cn rest)
  show ?case
  proof (cases "map_of (configs s) cn")
    case None
    with Cons.prems(1)
    have "batch_loop L srv max_pages incremental since_time rest results
            (say (ConfigMissing cn) s) = Inr (results', s')"
      by simp
    from Cons.IH[OF this Cons.prems(2)] show ?thesis by (simp add: say_def)
  next
    case (Some config)
    let ?s2 = "(say (BatchStart cn) s)\<lparr>all_articles := []\<rparr>"
    from Cons.prems(1) Some obtain articles s3 where
      run: "get_all_articles L srv max_pages (Some config) incremental since_time ?s2
              = Inr (articles, s3)"
      by (cases "get_all_articles L srv max_pages (Some config) incremental since_time ?s2")
         (auto simp: Let_def)
    let ?s4 = "say (BatchDone cn (length articles))
                 (s3\<lparr>all_articles := all_articles (say (BatchStart cn) s) @ articles\<rparr>)"
    from Cons.prems(1) Some run
    have "batch_loop L srv max_pages incremental since_time rest (results(cn \<mapsto> articles)) ?s4
            = Inr (results', s')"
      by (simp add: Let_def)
    from Cons.IH[OF this Cons.prems(2)]
    have ih: "(results(cn \<mapsto> articles)) nm = Some arts \<or>
      (\<exists>config s0 s1. map_of (configs ?s4) nm = Some config \<and> all_articles s0 = [] \<and>
         get_all_articles L srv max_pages (Some config) incremental since_time s0
           = Inr (arts, s1))" .
    have cf: "configs ?s4 = configs s"
      using get_all_articles_grows[OF run] by (simp add: say_def)
    show ?thesis
    proof (cases "nm = cn \<and> arts = articles")
      case True
      have "all_articles ?s2 = []" by simp
      with True Some run show ?thesis by blast
    next
      case False
      with ih cf show ?thesis by (auto split: if_splits)
    qed
  qed
qed

lemma first_call_run:
  "get_all_articles sample_lib short_srv 100 None False None new_spider
         = Inr (five_posts, after_first)"
  by (simp add: get_all_articles_def crawl_loop.simps[of _ _ _ _ _ 1] Let_def say_def
        get_page_data_def short_srv_def short_page_def parse_articles_def accumulate_def
        page_size_def total_pages_of_def new_spider_def after_first_def five_posts_def)

lemma second_call_run:
  "get_all_articles sample_lib short_srv 100 None False None after_first
         = Inr (five_posts @ five_posts, after_second)"
  by (simp add: get_all_articles_def crawl_loop.simps[of _ _ _ _ _ 1] Let_def say_def
        get_page_data_def short_srv_def short_page_def parse_articles_def accumulate_def
        page_size_def total_pages_of_def new_spider_def after_first_def after_second_def
        five_posts_def)

lemma batch_crawl_run:
  "get_all_articles sample_lib short_srv 100 (Some (current_config new_spider)) False None
     emptied
         = Inr (five_posts, after_batch_crawl)"
  by (simp add: get_all_articles_def crawl_loop.simps[of _ _ _ _ _ 1] Let_def say_def
        get_page_data_def short_srv_def short_page_def parse_articles_def accumulate_def
        page_size_def total_pages_of_def new_spider_def emptied_def after_batch_crawl_def
        five_posts_def)

lemma emptied_eq:
  "(say (BatchStart ''original'') after_first)\<lparr>all_articles := []\<rparr> = emptied"
  by (simp add: say_def after_first_def emptied_def new_spider_def)

lemma original_config:
  "map_of (configs after_first) ''original'' = Some (current_config new_spider)"
  by (simp add: after_first_def new_spider_def)

lemma batch_run:
  "get_all_articles_batch sample_lib short_srv (Some [''original'']) 100 False None after_first
     = Inr ([''original'' \<mapsto> five_posts],
            say (BatchDone ''original'' 5)
              (after_batch_crawl\<lparr>all_articles := five_posts @ five_posts\<rparr>))"
  by (simp add: get_all_articles_batch_def original_config emptied_eq batch_crawl_run Let_def)
     (simp add: after_first_def say_def five_posts_def)

text \<open>
  C10. \<^verbatim>\<open>get_all_articles\<close> returns the accumulated list of the spider, which has the list
  held before the call as a prefix; so of two successive calls on one spider the second
  returns a list that starts with the list the first returned. Every list in the result of
  \<^verbatim>\<open>get_all_articles_batch\<close> is what a crawl of that configuration returns when started
  on an empty accumulated list.
\<close>

theorem accumulator_persists:
  "(get_all_articles L srv max_pages cfg incremental since_time s = Inr (arts, s') \<longrightarrow>
      arts = all_articles s' \<and> prefix (all_articles s) arts) \<and>
   (get_all_articles L srva max_pagesa cfga incrementala since_timea s = Inr (artsa, sa) \<and>
    get_all_articles L srvb max_pagesb cfgb incrementalb since_timeb sa = Inr (artsb, sb) \<longrightarrow>
      prefix artsa artsb) \<and>
   (get_all_articles_batch L srv config_names max_pages incremental since_time s
      = Inr (results, s') \<and> results nm = Some arts \<longrightarrow>
      (\<exists>config start fin. map_of (configs s) nm = Some config \<and> all_articles start = [] \<and>
         get_all_articles L srv max_pages (Some config) incremental since_time start
           = Inr (arts, fin)))"
proof -
  have a: "get_all_articles L srv max_pages cfg incremental since_time s = Inr (arts, s') \<Longrightarrow>
      arts = all_articles s' \<and> prefix (all_articles s) arts"
    using get_all_articles_grows by blast
  have b: "prefix artsa artsb"
    if "get_all_articles L srva max_pagesa cfga incrementala since_timea s = Inr (artsa, sa)"
      and "get_all_articles L srvb max_pagesb cfgb incrementalb since_timeb sa = Inr (artsb, sb)"
    using get_all_articles_grows[OF that(1)] get_all_articles_grows[OF that(2)] by blast
  have c: "\<exists>config start fin. map_of (configs s) nm = Some config \<and> all_articles start = [] \<and>
         get_all_articles L srv max_pages (Some config) incremental since_time start
           = Inr (arts, fin)"
    if "get_all_articles_batch L srv config_names max_pages incremental since_time s
      = Inr (results, s')" and "results nm = Some arts"
    using batch_loop_results[OF that(1)[unfolded get_all_articles_batch_def] that(2)] by simp
  from a b c show ?thesis by blast
qed

theorem accumulator_persists_witness:
  "get_all_articles sample_lib short_srv 100 None False None new_spider
     = Inr (five_posts, after_first) \<and>
   get_all_articles sample_lib short_srv 100 None False None after_first
     = Inr (five_posts @ five_posts, after_second) \<and>
   prefix five_posts (five_posts @ five_posts) \<and>
   get_all_articles_batch sample_lib short_srv (Some [''original'']) 100 False None after_first
     = Inr ([''original'' \<mapsto> five_posts],
            say (BatchDone ''original'' 5)
              (after_batch_crawl\<lparr>all_articles := five_posts @ five_posts\<rparr>)) \<and>
   map_of (configs after_first) ''original'' = Some (current_config new_spider) \<and>
   all_articles emptied = [] \<and>
   get_all_articles sample_lib short_srv 100 (Some (current_config new_spider)) False None emptied
     = Inr (five_posts, after_batch_crawl)"
proof -
  have e: "all_articles emptied = []" by (simp add: emptied_def new_spider_def)
  have "prefix five_posts (five_posts @ five_posts)"
    using first_call_run second_call_run batch_run accumulator_persists [where L = sample_lib and srv = short_srv
        and max_pages = 100 and cfg = None and incremental = False and since_time = None
        and s = new_spider and arts = five_posts and s' = after_first
        and srva = short_srv and max_pagesa = 100 and cfga = None and incrementala = False
        and since_timea = None and artsa = five_posts and sa = after_first
        and srvb = short_srv and max_pagesb = 100 and cfgb = None and incrementalb = False
        and since_timeb = None and artsb = "five_posts @ five_posts" and sb = after_second]
    by blast
  with first_call_run second_call_run batch_crawl_run batch_run original_config e
  show ?thesis by simp
qed

section \<open>Properties of the history store\<close>

text \<open>
  C9, as amended. \<^verbatim>\<open>save_crawl_history\<close> always returns to its caller: when the write
  fails, the exception is logged, the file is as the failed write left it and nothing is
  raised (spider.py, every exception; main.py, \<^verbatim>\<open>IOError\<close>); when the write completes,
  the file holds the time of the call and the number of accumulated records.
\<close>

theorem history_save_never_raises:
  "(\<exists>s' file. save_crawl_history now w s = Inr (s', file)) \<and>
   save_crawl_history now (WriteFails e left) s
     = Inr (s\<lparr>log := log s @ [JsonSaveFailed e, HistorySaveFailed e]\<rparr>, left) \<and>
   save_crawl_history now Written s
     = Inr (s\<lparr>log := log s @ [JsonSaved, HistorySaved]\<rparr>,
            Some \<lparr>h_last_crawl_time = now, h_total_articles = length (all_articles s)\<rparr>) \<and>
   save_crawl_history_main now (WriteFails OSError left) s
     = Inr (s\<lparr>log := log s @ [HistorySaveFailed OSError]\<rparr>, left) \<and>
   save_crawl_history_main now Written s
     = Inr (s\<lparr>log := log s @ [HistorySaved]\<rparr>,
            Some \<lparr>h_last_crawl_time = now, h_total_articles = length (all_articles s)\<rparr>)"
  by (cases w) (simp_all add: save_crawl_history_def save_crawl_history_main_def save_json_def)

text \<open>
  C9 as stated fails: the write below fails with \<^verbatim>\<open>OSError\<close> and leaves no file, and the
  call returns normally.
\<close>

theorem history_save_counterexample:
  "save_crawl_history 1700000000000000 (WriteFails OSError None) new_spider
     = Inr (new_spider\<lparr>log := [JsonSaveFailed OSError, HistorySaveFailed OSError]\<rparr>, None)"
  by (simp add: save_crawl_history_def save_json_def new_spider_def)

end
